theory Spec2Isabelle
  imports Main "HOL-Library.Monad_Syntax"
begin

section \<open>PDF Slicer: the application window and its command protocol\<close>

text \<open>
  A shallow embedding of \<^verbatim>\<open>src/ui/window.cpp\<close> (class \<^verbatim>\<open>Slicer::AppWindow\<close>).
  The window's member functions become functions on a record of the window's members.
  A member function returns \<open>None\<close> where the C++ dereferences a null pointer
  (\<^verbatim>\<open>m_document\<close> before a document is opened, an action pointer before
  \<^verbatim>\<open>addActions\<close>); a C++ exception is a value of its own, since
  \<^verbatim>\<open>catch (...)\<close> handles the one and not the other.
  The window is taken to be on screen, so that \<^verbatim>\<open>get_window()\<close> gives its
  \<^verbatim>\<open>Gdk::Window\<close>. Widget layout, CSS and translation of messages are left out.
\<close>

subsection \<open>Toolkit values\<close>

text \<open>A \<^verbatim>\<open>Gio::File\<close>, as far as the window reads it.\<close>

record gfile =
  get_path :: string
  get_basename :: string

text \<open>
  A file chooser dialog after the user has answered it: \<^verbatim>\<open>run()\<close> gives the
  response code, \<^verbatim>\<open>get_file()\<close> the chosen file.
\<close>

record file_dialog =
  run :: int
  get_file :: gfile

definition GTK_RESPONSE_ACCEPT :: int where
  "GTK_RESPONSE_ACCEPT = - 3"

definition GTK_RESPONSE_CANCEL :: int where
  "GTK_RESPONSE_CANCEL = - 6"

text \<open>The member functions registered as action handlers.\<close>

datatype handler = OnOpenAction | OnSaveAction | OnUndoAction | OnRedoAction

text \<open>A \<^verbatim>\<open>Gio::SimpleAction\<close>: the slot it activates and its enabled flag.\<close>

record simple_action =
  activate :: handler
  enabled :: bool

text \<open>
  The callables connected to signals: the three lambdas of
  \<^verbatim>\<open>setupSignalHandlers\<close> and the member function connected in
  \<^verbatim>\<open>openDocument\<close>.
\<close>

datatype slot = CloseDoneLambda | SavedLambda | CommandQueuedLambda | OnCommandExecuted

text \<open>
  The closures handed to \<^verbatim>\<open>queueCommand\<close>. \<open>UndoClosure\<close> is
  \<^verbatim>\<open>[this]() { m_document->undoCommand(); }\<close>, \<open>RedoClosure\<close> its twin;
  \<open>EditorClosure c\<close> stands for a forward command \<open>c\<close> submitted by the editor
  widget (which is constructed with the same command slot).
\<close>

datatype command = UndoClosure | RedoClosure | EditorClosure nat

datatype widget = WelcomeScreen | Editor

text \<open>What the window does that an observer can see: signals emitted, error dialogs run.\<close>

datatype signal = Saved | CommandQueued | CommandExecuted

datatype effect = Emit signal | ErrorDialog string

datatype exception = DocumentLoadError

subsection \<open>Document\<close>

text \<open>
  Modelled from the spec: class Document is not among the sources. The spec gives it an
  undo stack and a redo stack of operations, \<open>canUndo\<close> and \<open>canRedo\<close> as queries of
  their emptiness, \<open>undoCommand\<close> and \<open>redoCommand\<close> moving the most recent entry
  from one stack to the other (a no-op on an empty stack), a forward command that
  clears the redo stack, and a "command executed" notification others subscribe to.
\<close>

record document =
  path :: string
  undoStack :: "nat list"
  redoStack :: "nat list"
  commandExecuted :: "slot list"

definition canUndo :: "document \<Rightarrow> bool" where
  "canUndo d = (undoStack d \<noteq> [])"

definition canRedo :: "document \<Rightarrow> bool" where
  "canRedo d = (redoStack d \<noteq> [])"

definition undoCommand :: "document \<Rightarrow> document" where
  "undoCommand d =
     (case undoStack d of
        [] \<Rightarrow> d
      | c # cs \<Rightarrow> d\<lparr>undoStack := cs, redoStack := c # redoStack d\<rparr>)"

definition redoCommand :: "document \<Rightarrow> document" where
  "redoCommand d =
     (case redoStack d of
        [] \<Rightarrow> d
      | c # cs \<Rightarrow> d\<lparr>undoStack := c # undoStack d, redoStack := cs\<rparr>)"

definition forwardCommand :: "nat \<Rightarrow> document \<Rightarrow> document" where
  "forwardCommand c d = d\<lparr>undoStack := c # undoStack d, redoStack := []\<rparr>"

text \<open>
  Modelled from the spec: the constructor \<^verbatim>\<open>Document(path)\<close>. A document is
  created from a file's path with no history and no subscriber; loading fails (the
  constructor throws) when the file cannot be read, which the parameter \<open>readable\<close>
  decides.
\<close>

definition new_Document :: "(string \<Rightarrow> bool) \<Rightarrow> string \<Rightarrow> exception + document" where
  "new_Document readable p =
     (if readable p
      then Inr \<lparr>path = p, undoStack = [], redoStack = [], commandExecuted = []\<rparr>
      else Inl DocumentLoadError)"

subsection \<open>CommandSlot\<close>

text \<open>
  Modelled from the spec: class CommandSlot is not among the sources. It holds the
  commands handed to it that the background thread has not run yet, in FIFO order,
  and the "command queued" signal with its subscribers.
\<close>

record command_slot =
  pending :: "command list"
  commandQueuedSignal :: "slot list"

definition new_CommandSlot :: command_slot where
  "new_CommandSlot = \<lparr>pending = [], commandQueuedSignal = []\<rparr>"

subsection \<open>The window's members\<close>

text \<open>
  \<open>actions\<close> is the window's action map (\<^verbatim>\<open>Gio::ActionMap\<close>), keyed by action name;
  the four \<^verbatim>\<open>RefPtr\<close> members point into it and are modelled by the name of the
  action they point to, \<open>None\<close> for a null pointer. \<open>m_commandSlot\<close> is a reference
  member; the record holds the referent. \<open>window_cursor\<close> is the cursor of the
  window's \<^verbatim>\<open>Gdk::Window\<close>, \<open>None\<close> when unset. \<open>trace\<close> lists the observable effects
  so far, oldest first.
\<close>

record app_window =
  m_commandSlot :: command_slot
  m_document :: "document option"
  actions :: "string \<Rightarrow> simple_action option"
  m_openAction :: "string option"
  m_saveAction :: "string option"
  m_undoAction :: "string option"
  m_redoAction :: "string option"
  m_editor_document :: "string option"
  m_overlay_child :: "widget option"
  m_headerBar_subtitle :: string
  m_revealerDone_reveal_child :: bool
  m_buttonCloseDone_clicked :: "slot list"
  m_signalSaved :: "slot list"
  m_connectionSaved :: bool
  window_cursor :: "string option"
  trace :: "effect list"

text \<open>\<^verbatim>\<open>add_action(name, slot)\<close>: a new action, enabled, entered under its name.\<close>

definition add_action :: "string \<Rightarrow> handler \<Rightarrow> app_window \<Rightarrow> string option \<times> app_window" where
  "add_action name h w =
     (Some name, w\<lparr>actions := (actions w)(name \<mapsto> \<lparr>activate = h, enabled = True\<rparr>)\<rparr>)"

text \<open>\<^verbatim>\<open>p->set_enabled(b)\<close> through an action pointer \<open>p\<close>.\<close>

definition set_enabled :: "string option \<Rightarrow> bool \<Rightarrow> app_window \<Rightarrow> app_window option" where
  "set_enabled p b w =
     (case p of
        None \<Rightarrow> None
      | Some n \<Rightarrow>
          (case actions w n of
             None \<Rightarrow> None
           | Some a \<Rightarrow> Some (w\<lparr>actions := (actions w)(n \<mapsto> a\<lparr>enabled := b\<rparr>)\<rparr>)))"

text \<open>Whether the action registered under a name is enabled; \<open>None\<close> when there is none.\<close>

definition action_enabled :: "app_window \<Rightarrow> string \<Rightarrow> bool option" where
  "action_enabled w n = map_option enabled (actions w n)"

subsection \<open>Construction\<close>

definition addActions :: "app_window \<Rightarrow> app_window option" where
  "addActions w0 =
     (let (p1, w1) = add_action ''open-document'' OnOpenAction w0;
          w1 = w1\<lparr>m_openAction := p1\<rparr>;
          (p2, w2) = add_action ''save-document'' OnSaveAction w1;
          w2 = w2\<lparr>m_saveAction := p2\<rparr>;
          (p3, w3) = add_action ''undo'' OnUndoAction w2;
          w3 = w3\<lparr>m_undoAction := p3\<rparr>;
          (p4, w4) = add_action ''redo'' OnRedoAction w3;
          w4 = w4\<lparr>m_redoAction := p4\<rparr>
      in do {
        w5 \<leftarrow> set_enabled (m_saveAction w4) False w4;
        w6 \<leftarrow> set_enabled (m_undoAction w5) False w5;
        set_enabled (m_redoAction w6) False w6
      })"

definition setupWidgets :: "app_window \<Rightarrow> app_window" where
  "setupWidgets w = w\<lparr>m_overlay_child := Some WelcomeScreen\<rparr>"

definition setupSignalHandlers :: "app_window \<Rightarrow> app_window" where
  "setupSignalHandlers w =
     w\<lparr>m_buttonCloseDone_clicked := m_buttonCloseDone_clicked w @ [CloseDoneLambda],
       m_signalSaved := m_signalSaved w @ [SavedLambda],
       m_commandSlot := (m_commandSlot w)
          \<lparr>commandQueuedSignal := commandQueuedSignal (m_commandSlot w) @ [CommandQueuedLambda]\<rparr>\<rparr>"

text \<open>The members as the constructor's initialiser list and default constructors leave them.\<close>

definition members :: "command_slot \<Rightarrow> app_window" where
  "members cs =
     \<lparr>m_commandSlot = cs, m_document = None, actions = Map.empty,
      m_openAction = None, m_saveAction = None, m_undoAction = None, m_redoAction = None,
      m_editor_document = None, m_overlay_child = None, m_headerBar_subtitle = [],
      m_revealerDone_reveal_child = False, m_buttonCloseDone_clicked = [],
      m_signalSaved = [], m_connectionSaved = False, window_cursor = None, trace = []\<rparr>"

definition AppWindow :: "command_slot \<Rightarrow> app_window option" where
  "AppWindow cs = do {
     w \<leftarrow> addActions (members cs);
     Some (setupSignalHandlers (setupWidgets w))
   }"

subsection \<open>Signal handlers\<close>

text \<open>The lambda connected to \<^verbatim>\<open>m_buttonCloseDone.signal_clicked()\<close>.\<close>

definition closeDoneLambda :: "app_window \<Rightarrow> app_window option" where
  "closeDoneLambda w = Some (w\<lparr>m_revealerDone_reveal_child := False\<rparr>)"

text \<open>
  The lambda connected to \<^verbatim>\<open>m_signalSaved\<close>: it drops a running hide timer, shows
  the notification and starts a new timer.
\<close>

definition savedLambda :: "app_window \<Rightarrow> app_window option" where
  "savedLambda w =
     (let w1 = (if m_connectionSaved w then w\<lparr>m_connectionSaved := False\<rparr> else w)
      in Some (w1\<lparr>m_revealerDone_reveal_child := True, m_connectionSaved := True\<rparr>))"

text \<open>The timer's callback, five seconds later; it returns false, which ends the timer.\<close>

definition savedTimeout :: "app_window \<Rightarrow> app_window option" where
  "savedTimeout w =
     (if m_connectionSaved w
      then Some (w\<lparr>m_revealerDone_reveal_child := False, m_connectionSaved := False\<rparr>)
      else Some w)"

text \<open>The lambda connected to \<^verbatim>\<open>m_commandSlot.commandQueuedSignal\<close>.\<close>

definition commandQueuedLambda :: "app_window \<Rightarrow> app_window option" where
  "commandQueuedLambda w = do {
     w1 \<leftarrow> set_enabled (m_undoAction w) False w;
     w2 \<leftarrow> set_enabled (m_redoAction w1) False w1;
     Some (w2\<lparr>window_cursor := Some ''progress''\<rparr>)
   }"

definition onCommandExecuted :: "app_window \<Rightarrow> app_window option" where
  "onCommandExecuted w = do {
     w1 \<leftarrow> (case m_document w of
              None \<Rightarrow> None
            | Some d \<Rightarrow>
                if canUndo d then set_enabled (m_undoAction w) True w
                else set_enabled (m_undoAction w) False w);
     w2 \<leftarrow> (case m_document w1 of
              None \<Rightarrow> None
            | Some d \<Rightarrow>
                if canRedo d then set_enabled (m_redoAction w1) True w1
                else set_enabled (m_redoAction w1) False w1);
     Some (w2\<lparr>window_cursor := None\<rparr>)
   }"

fun invoke :: "slot \<Rightarrow> app_window \<Rightarrow> app_window option" where
  "invoke CloseDoneLambda w = closeDoneLambda w"
| "invoke SavedLambda w = savedLambda w"
| "invoke CommandQueuedLambda w = commandQueuedLambda w"
| "invoke OnCommandExecuted w = onCommandExecuted w"

text \<open>\<^verbatim>\<open>signal.emit()\<close>: the connected slots run in the order they were connected.\<close>

fun call_slots :: "slot list \<Rightarrow> app_window \<Rightarrow> app_window option" where
  "call_slots [] w = Some w"
| "call_slots (s # ss) w = invoke s w \<bind> call_slots ss"

definition emit :: "signal \<Rightarrow> slot list \<Rightarrow> app_window \<Rightarrow> app_window option" where
  "emit sg ss w = call_slots ss (w\<lparr>trace := trace w @ [Emit sg]\<rparr>)"

subsection \<open>Opening and saving\<close>

definition openDocument ::
  "(string \<Rightarrow> bool) \<Rightarrow> gfile \<Rightarrow> app_window \<Rightarrow> (exception + app_window) option" where
  "openDocument readable file w =
     (case new_Document readable (get_path file) of
        Inl e \<Rightarrow> Some (Inl e)
      | Inr document \<Rightarrow>
          (let w1 = w\<lparr>m_editor_document := Some (path document)\<rparr>;
               w2 = w1\<lparr>m_document := Some document\<rparr>;
               w3 = (if m_overlay_child w2 \<noteq> Some Editor
                     then w2\<lparr>m_overlay_child := Some Editor\<rparr> else w2);
               w4 = w3\<lparr>m_headerBar_subtitle := get_basename file\<rparr>
           in do {
             w5 \<leftarrow> set_enabled (m_saveAction w4) True w4;
             d \<leftarrow> m_document w5;
             Some (Inr (w5\<lparr>m_document :=
               Some (d\<lparr>commandExecuted := commandExecuted d @ [OnCommandExecuted]\<rparr>)\<rparr>))
           }))"

definition errorDialog :: "string \<Rightarrow> app_window \<Rightarrow> app_window" where
  "errorDialog msg w = w\<lparr>trace := trace w @ [ErrorDialog msg]\<rparr>"

text \<open>
  \<open>save_ok\<close> says whether \<^verbatim>\<open>Document::saveDocument\<close> (not among the sources) returns
  rather than throws for this document and file.
\<close>

definition onSaveAction ::
  "(document \<Rightarrow> gfile \<Rightarrow> bool) \<Rightarrow> file_dialog \<Rightarrow> app_window \<Rightarrow> app_window option" where
  "onSaveAction save_ok dialog w =
     (if run dialog = GTK_RESPONSE_ACCEPT
      then (case m_document w of
              None \<Rightarrow> None
            | Some d \<Rightarrow>
                if save_ok d (get_file dialog)
                then emit Saved (m_signalSaved w) w
                else Some (errorDialog ''The current document could not be saved'' w))
      else Some w)"

definition onOpenAction ::
  "(string \<Rightarrow> bool) \<Rightarrow> file_dialog \<Rightarrow> app_window \<Rightarrow> app_window option" where
  "onOpenAction readable dialog w = do {
     w1 \<leftarrow> (if run dialog = GTK_RESPONSE_ACCEPT
            then (case openDocument readable (get_file dialog) w of
                    None \<Rightarrow> None
                  | Some (Inr w') \<Rightarrow> Some w'
                  | Some (Inl e) \<Rightarrow>
                      Some (errorDialog ''The selected file could not be opened'' w))
            else Some w);
     w2 \<leftarrow> set_enabled (m_undoAction w1) False w1;
     set_enabled (m_redoAction w2) False w2
   }"

subsection \<open>Queueing and running commands\<close>

text \<open>
  Modelled from the spec: \<^verbatim>\<open>CommandSlot::queueCommand\<close> is not among the sources. It
  raises the "command queued" notification at once, before it returns, and hands the
  command to the background thread; a command handed over while another is in flight
  waits behind it (commands run in FIFO order, one at a time).
\<close>

definition queueCommand :: "command \<Rightarrow> app_window \<Rightarrow> app_window option" where
  "queueCommand c w = do {
     w1 \<leftarrow> emit CommandQueued (commandQueuedSignal (m_commandSlot w)) w;
     Some (w1\<lparr>m_commandSlot := (m_commandSlot w1)
                \<lparr>pending := pending (m_commandSlot w1) @ [c]\<rparr>\<rparr>)
   }"

definition onUndoAction :: "app_window \<Rightarrow> app_window option" where
  "onUndoAction w = queueCommand UndoClosure w"

definition onRedoAction :: "app_window \<Rightarrow> app_window option" where
  "onRedoAction w = queueCommand RedoClosure w"

text \<open>
  Calling a closure. The bodies of the first two are in \<^verbatim>\<open>onUndoAction\<close> and
  \<^verbatim>\<open>onRedoAction\<close>; they read \<^verbatim>\<open>m_document\<close> when they run, not when they are made.
\<close>

fun call :: "command \<Rightarrow> app_window \<Rightarrow> app_window option" where
  "call UndoClosure w =
     (case m_document w of
        None \<Rightarrow> None
      | Some d \<Rightarrow> Some (w\<lparr>m_document := Some (undoCommand d)\<rparr>))"
| "call RedoClosure w =
     (case m_document w of
        None \<Rightarrow> None
      | Some d \<Rightarrow> Some (w\<lparr>m_document := Some (redoCommand d)\<rparr>))"
| "call (EditorClosure c) w =
     (case m_document w of
        None \<Rightarrow> None
      | Some d \<Rightarrow> Some (w\<lparr>m_document := Some (forwardCommand c d)\<rparr>))"

text \<open>
  Modelled from the spec: the background thread (not among the sources) takes the
  oldest pending command and runs it. \<open>fails\<close> says that the command throws; then the
  document is left as it was. Either way the run ends with the completion notification,
  the document's "command executed" signal. With nothing pending, nothing happens.
\<close>

definition backgroundRun :: "bool \<Rightarrow> app_window \<Rightarrow> app_window option" where
  "backgroundRun fails w =
     (case pending (m_commandSlot w) of
        [] \<Rightarrow> Some w
      | c # cs \<Rightarrow> do {
          w1 \<leftarrow> Some (w\<lparr>m_commandSlot := (m_commandSlot w)\<lparr>pending := cs\<rparr>\<rparr>);
          w2 \<leftarrow> (if fails then Some w1 else call c w1);
          d \<leftarrow> m_document w2;
          emit CommandExecuted (commandExecuted d) w2
        })"

subsection \<open>The running application\<close>

text \<open>
  What can happen to a window: the user activates an action by name (the event carries
  the answer a file dialog would get), the editor submits a forward command, the
  background thread runs a command (and the command throws or not), the user closes
  the "Saved!" notification, its timer fires.
\<close>

datatype event =
    Activate string file_dialog
  | EditorSubmit nat
  | BackgroundRun bool
  | CloseDoneClicked
  | SavedTimeout

fun call_handler ::
  "(string \<Rightarrow> bool) \<Rightarrow> (document \<Rightarrow> gfile \<Rightarrow> bool) \<Rightarrow> file_dialog \<Rightarrow> handler \<Rightarrow>
     app_window \<Rightarrow> app_window option" where
  "call_handler readable save_ok dialog OnOpenAction w = onOpenAction readable dialog w"
| "call_handler readable save_ok dialog OnSaveAction w = onSaveAction save_ok dialog w"
| "call_handler readable save_ok dialog OnUndoAction w = onUndoAction w"
| "call_handler readable save_ok dialog OnRedoAction w = onRedoAction w"

text \<open>
  Activating an action by name calls its handler when the action exists and is
  enabled, and does nothing otherwise (the toolkit's rule for
  \<^verbatim>\<open>Gio::SimpleAction\<close>).
\<close>

definition activate_action ::
  "(string \<Rightarrow> bool) \<Rightarrow> (document \<Rightarrow> gfile \<Rightarrow> bool) \<Rightarrow> file_dialog \<Rightarrow> string \<Rightarrow>
     app_window \<Rightarrow> app_window option" where
  "activate_action readable save_ok dialog n w =
     (case actions w n of
        None \<Rightarrow> Some w
      | Some a \<Rightarrow>
          if enabled a then call_handler readable save_ok dialog (activate a) w else Some w)"

text \<open>
  Modelled from the spec: the editor widget (not among the sources) submits its
  forward commands through the command slot, once it shows a document.
\<close>

definition editorSubmit :: "nat \<Rightarrow> app_window \<Rightarrow> app_window option" where
  "editorSubmit c w =
     (if m_editor_document w = None then Some w else queueCommand (EditorClosure c) w)"

fun step ::
  "(string \<Rightarrow> bool) \<Rightarrow> (document \<Rightarrow> gfile \<Rightarrow> bool) \<Rightarrow> event \<Rightarrow> app_window \<Rightarrow>
     app_window option" where
  "step readable save_ok (Activate n dialog) w = activate_action readable save_ok dialog n w"
| "step readable save_ok (EditorSubmit c) w = editorSubmit c w"
| "step readable save_ok (BackgroundRun fails) w = backgroundRun fails w"
| "step readable save_ok CloseDoneClicked w = call_slots (m_buttonCloseDone_clicked w) w"
| "step readable save_ok SavedTimeout w = savedTimeout w"

fun steps ::
  "(string \<Rightarrow> bool) \<Rightarrow> (document \<Rightarrow> gfile \<Rightarrow> bool) \<Rightarrow> event list \<Rightarrow> app_window \<Rightarrow>
     app_window option" where
  "steps readable save_ok [] w = Some w"
| "steps readable save_ok (e # es) w = step readable save_ok e w \<bind> steps readable save_ok es"

text \<open>The application starts with a new command slot and a new window.\<close>

definition start :: "app_window option" where
  "start = AppWindow new_CommandSlot"

definition launch ::
  "(string \<Rightarrow> bool) \<Rightarrow> (document \<Rightarrow> gfile \<Rightarrow> bool) \<Rightarrow> event list \<Rightarrow> app_window option" where
  "launch readable save_ok es = start \<bind> steps readable save_ok es"

subsection \<open>Constructed windows\<close>

text \<open>
  After the constructor the four action pointers point to the actions registered under
  their names, each with its handler.
\<close>

definition constructed :: "app_window \<Rightarrow> bool" where
  "constructed w \<longleftrightarrow>
     m_openAction w = Some ''open-document'' \<and> m_saveAction w = Some ''save-document'' \<and>
     m_undoAction w = Some ''undo'' \<and> m_redoAction w = Some ''redo'' \<and>
     map_option activate (actions w ''open-document'') = Some OnOpenAction \<and>
     map_option activate (actions w ''save-document'') = Some OnSaveAction \<and>
     map_option activate (actions w ''undo'') = Some OnUndoAction \<and>
     map_option activate (actions w ''redo'') = Some OnRedoAction"

text \<open>The connections made in \<^verbatim>\<open>setupSignalHandlers\<close>, and no others.\<close>

definition connected :: "app_window \<Rightarrow> bool" where
  "connected w \<longleftrightarrow>
     commandQueuedSignal (m_commandSlot w) = [CommandQueuedLambda] \<and>
     m_signalSaved w = [SavedLambda] \<and>
     m_buttonCloseDone_clicked w = [CloseDoneLambda]"

text \<open>The window the constructor builds around a new command slot, written out.\<close>

definition initial_window :: app_window where
  "initial_window =
     \<lparr>m_commandSlot = \<lparr>pending = [], commandQueuedSignal = [CommandQueuedLambda]\<rparr>,
      m_document = None,
      actions = [''open-document'' \<mapsto> \<lparr>activate = OnOpenAction, enabled = True\<rparr>,
                 ''save-document'' \<mapsto> \<lparr>activate = OnSaveAction, enabled = False\<rparr>,
                 ''undo'' \<mapsto> \<lparr>activate = OnUndoAction, enabled = False\<rparr>,
                 ''redo'' \<mapsto> \<lparr>activate = OnRedoAction, enabled = False\<rparr>],
      m_openAction = Some ''open-document'', m_saveAction = Some ''save-document'',
      m_undoAction = Some ''undo'', m_redoAction = Some ''redo'',
      m_editor_document = None, m_overlay_child = Some WelcomeScreen,
      m_headerBar_subtitle = [], m_revealerDone_reveal_child = False,
      m_buttonCloseDone_clicked = [CloseDoneLambda], m_signalSaved = [SavedLambda],
      m_connectionSaved = False, window_cursor = None, trace = []\<rparr>"

text \<open>Example inputs: a dialog accepted with a file, a dialog cancelled, a document with history.\<close>

definition accepted :: "string \<Rightarrow> file_dialog" where
  "accepted p = \<lparr>run = GTK_RESPONSE_ACCEPT, get_file = \<lparr>get_path = p, get_basename = p\<rparr>\<rparr>"

definition cancelled :: file_dialog where
  "cancelled = \<lparr>run = GTK_RESPONSE_CANCEL, get_file = \<lparr>get_path = [], get_basename = []\<rparr>\<rparr>"

definition edited_document :: document where
  "edited_document =
     \<lparr>path = ''a.pdf'', undoStack = [2, 1], redoStack = [], commandExecuted = [OnCommandExecuted]\<rparr>"

text \<open>
  A window in which a document has been opened and edited twice, and the same window
  while an undo is in flight.
\<close>

definition editing_window :: app_window where
  "editing_window =
     \<lparr>m_commandSlot = \<lparr>pending = [], commandQueuedSignal = [CommandQueuedLambda]\<rparr>,
      m_document = Some edited_document,
      actions = [''open-document'' \<mapsto> \<lparr>activate = OnOpenAction, enabled = True\<rparr>,
                 ''save-document'' \<mapsto> \<lparr>activate = OnSaveAction, enabled = True\<rparr>,
                 ''undo'' \<mapsto> \<lparr>activate = OnUndoAction, enabled = True\<rparr>,
                 ''redo'' \<mapsto> \<lparr>activate = OnRedoAction, enabled = False\<rparr>],
      m_openAction = Some ''open-document'', m_saveAction = Some ''save-document'',
      m_undoAction = Some ''undo'', m_redoAction = Some ''redo'',
      m_editor_document = Some ''a.pdf'', m_overlay_child = Some Editor,
      m_headerBar_subtitle = ''a.pdf'', m_revealerDone_reveal_child = False,
      m_buttonCloseDone_clicked = [CloseDoneLambda], m_signalSaved = [SavedLambda],
      m_connectionSaved = False, window_cursor = None,
      trace = [Emit CommandQueued, Emit CommandExecuted, Emit CommandQueued, Emit CommandExecuted]\<rparr>"

definition busy_window :: app_window where
  "busy_window = editing_window\<lparr>
     actions := (actions editing_window)(''undo'' \<mapsto> \<lparr>activate = OnUndoAction, enabled = False\<rparr>),
     window_cursor := Some ''progress'',
     m_document := Some (undoCommand edited_document)\<rparr>"


text \<open>What running a command does to the document.\<close>

fun outcome :: "bool \<Rightarrow> command \<Rightarrow> document \<Rightarrow> document" where
  "outcome True c d = d"
| "outcome False UndoClosure d = undoCommand d"
| "outcome False RedoClosure d = redoCommand d"
| "outcome False (EditorClosure x) d = forwardCommand x d"

subsection \<open>Invariants of the running application\<close>

text \<open>The handler each action name is registered with.\<close>

definition registered :: "string \<Rightarrow> handler option" where
  "registered n =
     (if n = ''open-document'' then Some OnOpenAction
      else if n = ''save-document'' then Some OnSaveAction
      else if n = ''undo'' then Some OnUndoAction
      else if n = ''redo'' then Some OnRedoAction
      else None)"

text \<open>
  What holds of the window whenever control is back in the main loop: the action map
  holds the four actions and nothing else, the open action is enabled, the save
  action is enabled exactly when there is a document, the document's signal calls
  \<open>onCommandExecuted\<close> and nothing else, and without a document nothing is pending
  and undo and redo are disabled.
\<close>

definition consistent :: "app_window \<Rightarrow> bool" where
  "consistent w \<longleftrightarrow>
     constructed w \<and> connected w \<and>
     (\<forall>n. map_option activate (actions w n) = registered n) \<and>
     action_enabled w ''open-document'' = Some True \<and>
     action_enabled w ''save-document'' = Some (m_document w \<noteq> None) \<and>
     (m_document w = None \<longrightarrow>
        pending (m_commandSlot w) = [] \<and> m_editor_document w = None \<and>
        action_enabled w ''undo'' = Some False \<and> action_enabled w ''redo'' = Some False) \<and>
     (\<forall>d. m_document w = Some d \<longrightarrow> commandExecuted d = [OnCommandExecuted])"

text \<open>An event that opens a document: the open action, accepted, with a readable file.\<close>

definition opens_document :: "(string \<Rightarrow> bool) \<Rightarrow> event \<Rightarrow> bool" where
  "opens_document readable e =
     (case e of
        Activate n dialog \<Rightarrow>
          n = ''open-document'' \<and> run dialog = GTK_RESPONSE_ACCEPT \<and>
          readable (get_path (get_file dialog))
      | _ \<Rightarrow> False)"

text \<open>
  An event that runs \<open>onOpenAction\<close> without opening a document: the open action
  with the dialog not accepted or the file unreadable.
\<close>

definition keeps_document :: "(string \<Rightarrow> bool) \<Rightarrow> event \<Rightarrow> bool" where
  "keeps_document readable e =
     (case e of
        Activate n dialog \<Rightarrow>
          n = ''open-document'' \<and>
          \<not> (run dialog = GTK_RESPONSE_ACCEPT \<and> readable (get_path (get_file dialog)))
      | _ \<Rightarrow> False)"

text \<open>With nothing pending, undo and redo are enabled as the document says.\<close>

definition synced :: "app_window \<Rightarrow> bool" where
  "synced w \<longleftrightarrow>
     (\<forall>d. pending (m_commandSlot w) = [] \<and> m_document w = Some d \<longrightarrow>
        action_enabled w ''undo'' = Some (canUndo d) \<and>
        action_enabled w ''redo'' = Some (canRedo d))"



text \<open>
  Every "command queued" notification so far is matched by a completion notification or
  by a command still pending, and the cursor is unset when nothing is pending.
\<close>

definition balanced :: "app_window \<Rightarrow> bool" where
  "balanced w \<longleftrightarrow>
     count_list (trace w) (Emit CommandQueued) =
       count_list (trace w) (Emit CommandExecuted) + length (pending (m_commandSlot w)) \<and>
     (pending (m_commandSlot w) = [] \<longrightarrow> window_cursor w = None)"

text \<open>The effects a run has added to the trace, given the window before and after.\<close>

definition new_effects :: "app_window \<Rightarrow> app_window \<Rightarrow> effect list" where
  "new_effects w w' = drop (length (trace w)) (trace w')"

section \<open>Properties\<close>

subsection \<open>Action pointers and handlers\<close>

lemma set_enabled_eq:
  assumes "p = Some n" and "map_option activate (actions w n) = Some h"
  shows "set_enabled p b w =
    Some (w\<lparr>actions := (actions w)(n \<mapsto> \<lparr>activate = h, enabled = b\<rparr>)\<rparr>)"
proof -
  from assms obtain a where a: "actions w n = Some a" and h: "activate a = h"
    by auto
  have "a\<lparr>enabled := b\<rparr> = \<lparr>activate = h, enabled = b\<rparr>"
    using h by (cases a) simp
  with assms(1) a show ?thesis
    by (simp add: set_enabled_def)
qed

lemma start_eq: "start = Some initial_window"
  by (simp add: start_def AppWindow_def addActions_def add_action_def set_enabled_def
      members_def new_CommandSlot_def setupWidgets_def setupSignalHandlers_def
      initial_window_def)

lemma constructed_initial: "constructed initial_window"
  by (simp add: constructed_def initial_window_def)

lemma connected_initial: "connected initial_window"
  by (simp add: connected_def initial_window_def)

lemma commandQueuedLambda_eq:
  assumes "constructed w"
  shows "commandQueuedLambda w =
     Some (w\<lparr>actions := (actions w)
                (''undo'' \<mapsto> \<lparr>activate = OnUndoAction, enabled = False\<rparr>,
                 ''redo'' \<mapsto> \<lparr>activate = OnRedoAction, enabled = False\<rparr>),
            window_cursor := Some ''progress''\<rparr>)"
proof -
  from assms have u: "m_undoAction w = Some ''undo''"
    and ua: "map_option activate (actions w ''undo'') = Some OnUndoAction"
    and r: "m_redoAction w = Some ''redo''"
    and ra: "map_option activate (actions w ''redo'') = Some OnRedoAction"
    by (simp_all add: constructed_def)
  show ?thesis
    unfolding commandQueuedLambda_def
    by (simp add: set_enabled_eq [OF u ua]
        set_enabled_eq [where n = "''redo''" and h = OnRedoAction] r ra)
qed

lemma onCommandExecuted_eq:
  assumes "constructed w" and "m_document w = Some d"
  shows "onCommandExecuted w =
     Some (w\<lparr>actions := (actions w)
                (''undo'' \<mapsto> \<lparr>activate = OnUndoAction, enabled = canUndo d\<rparr>,
                 ''redo'' \<mapsto> \<lparr>activate = OnRedoAction, enabled = canRedo d\<rparr>),
            window_cursor := None\<rparr>)"
proof -
  from assms have u: "m_undoAction w = Some ''undo''"
    and ua: "map_option activate (actions w ''undo'') = Some OnUndoAction"
    and r: "m_redoAction w = Some ''redo''"
    and ra: "map_option activate (actions w ''redo'') = Some OnRedoAction"
    by (simp_all add: constructed_def)
  show ?thesis
    unfolding onCommandExecuted_def
    by (simp add: assms(2) set_enabled_eq [OF u ua]
        set_enabled_eq [where n = "''redo''" and h = OnRedoAction] r ra)
qed

lemma constructed_trace [simp]: "constructed (w\<lparr>trace := t\<rparr>) = constructed w"
  by (simp add: constructed_def)

lemma openDocument_eq:
  assumes "constructed w" and "readable (get_path file)"
  shows "openDocument readable file w =
     Some (Inr (w\<lparr>m_editor_document := Some (get_path file),
                  m_document := Some \<lparr>path = get_path file, undoStack = [], redoStack = [],
                                       commandExecuted = [OnCommandExecuted]\<rparr>,
                  m_overlay_child := Some Editor,
                  m_headerBar_subtitle := get_basename file,
                  actions := (actions w)
                     (''save-document'' \<mapsto> \<lparr>activate = OnSaveAction, enabled = True\<rparr>)\<rparr>))"
proof -
  from assms(1) have s: "m_saveAction w = Some ''save-document''"
    and sa: "map_option activate (actions w ''save-document'') = Some OnSaveAction"
    by (simp_all add: constructed_def)
  show ?thesis
  proof (cases "m_overlay_child w = Some Editor")
    case True
    then have "w\<lparr>m_overlay_child := Some Editor\<rparr> = w"
      by (cases w) simp
    then show ?thesis
      using True assms(2)
      by (simp add: openDocument_def new_Document_def Let_def
        set_enabled_eq [where n = "''save-document''" and h = OnSaveAction] s sa)
  next
    case False
    then show ?thesis
      using assms(2)
      by (simp add: openDocument_def new_Document_def Let_def
        set_enabled_eq [where n = "''save-document''" and h = OnSaveAction] s sa)
  qed
qed

lemma openDocument_throws:
  assumes "\<not> readable (get_path file)"
  shows "openDocument readable file w = Some (Inl DocumentLoadError)"
  using assms by (simp add: openDocument_def new_Document_def)

lemma constructed_pointers:
  assumes "constructed w"
  shows "m_openAction w = Some ''open-document''" and "m_saveAction w = Some ''save-document''"
    and "m_undoAction w = Some ''undo''" and "m_redoAction w = Some ''redo''"
  using assms by (simp_all add: constructed_def)

lemma disable_undo_redo_eq:
  assumes "constructed w"
  shows "set_enabled (Some ''undo'') False w \<bind> (\<lambda>w2. set_enabled (m_redoAction w2) False w2) =
    Some (w\<lparr>actions := (actions w)
                (''undo'' \<mapsto> \<lparr>activate = OnUndoAction, enabled = False\<rparr>,
                 ''redo'' \<mapsto> \<lparr>activate = OnRedoAction, enabled = False\<rparr>)\<rparr>)"
proof -
  from assms have ua: "map_option activate (actions w ''undo'') = Some OnUndoAction"
    and r: "m_redoAction w = Some ''redo''"
    and ra: "map_option activate (actions w ''redo'') = Some OnRedoAction"
    by (simp_all add: constructed_def)
  show ?thesis
    by (simp add: set_enabled_eq [OF refl ua]
        set_enabled_eq [where n = "''redo''" and h = OnRedoAction] r ra)
qed

lemma onOpenAction_cancelled:
  assumes "constructed w" and "run dialog \<noteq> GTK_RESPONSE_ACCEPT"
  shows "onOpenAction readable dialog w =
    Some (w\<lparr>actions := (actions w)
                (''undo'' \<mapsto> \<lparr>activate = OnUndoAction, enabled = False\<rparr>,
                 ''redo'' \<mapsto> \<lparr>activate = OnRedoAction, enabled = False\<rparr>)\<rparr>)"
  using assms(2)
  by (simp add: onOpenAction_def constructed_pointers [OF assms(1)]
      disable_undo_redo_eq [OF assms(1)])

lemma onOpenAction_failed:
  assumes "constructed w" and "run dialog = GTK_RESPONSE_ACCEPT"
    and "\<not> readable (get_path (get_file dialog))"
  shows "onOpenAction readable dialog w =
    Some (w\<lparr>trace := trace w @ [ErrorDialog ''The selected file could not be opened''],
            actions := (actions w)
                (''undo'' \<mapsto> \<lparr>activate = OnUndoAction, enabled = False\<rparr>,
                 ''redo'' \<mapsto> \<lparr>activate = OnRedoAction, enabled = False\<rparr>)\<rparr>)"
proof -
  have c: "constructed (errorDialog ''The selected file could not be opened'' w)"
    using assms(1) by (simp add: errorDialog_def)
  show ?thesis
    using assms(2)
    by (simp add: onOpenAction_def openDocument_throws [of readable "get_file dialog", OF assms(3)]
        constructed_pointers [OF c] disable_undo_redo_eq [OF c]) (simp add: errorDialog_def)
qed

lemma onOpenAction_opened:
  assumes "constructed w" and "run dialog = GTK_RESPONSE_ACCEPT"
    and "readable (get_path (get_file dialog))"
  shows "onOpenAction readable dialog w =
    Some (w\<lparr>m_editor_document := Some (get_path (get_file dialog)),
            m_document := Some \<lparr>path = get_path (get_file dialog), undoStack = [],
                                 redoStack = [], commandExecuted = [OnCommandExecuted]\<rparr>,
            m_overlay_child := Some Editor,
            m_headerBar_subtitle := get_basename (get_file dialog),
            actions := (actions w)
                (''save-document'' \<mapsto> \<lparr>activate = OnSaveAction, enabled = True\<rparr>,
                 ''undo'' \<mapsto> \<lparr>activate = OnUndoAction, enabled = False\<rparr>,
                 ''redo'' \<mapsto> \<lparr>activate = OnRedoAction, enabled = False\<rparr>)\<rparr>)"
proof -
  let ?w = "w\<lparr>m_editor_document := Some (get_path (get_file dialog)),
                  m_document := Some \<lparr>path = get_path (get_file dialog), undoStack = [], redoStack = [],
                                       commandExecuted = [OnCommandExecuted]\<rparr>,
                  m_overlay_child := Some Editor,
                  m_headerBar_subtitle := get_basename (get_file dialog),
                  actions := (actions w)
                     (''save-document'' \<mapsto> \<lparr>activate = OnSaveAction, enabled = True\<rparr>)\<rparr>"
  have c: "constructed ?w"
    using assms(1) by (simp add: constructed_def)
  show ?thesis
    using assms(2)
    by (simp add: onOpenAction_def openDocument_eq [of w readable "get_file dialog", OF assms(1) assms(3)]
        constructed_pointers [OF assms(1)] disable_undo_redo_eq [OF c])
qed

lemma onSaveAction_eq:
  assumes "m_document w = Some d" and "m_signalSaved w = [SavedLambda]"
  shows "onSaveAction save_ok dialog w =
    Some (if run dialog = GTK_RESPONSE_ACCEPT
          then (if save_ok d (get_file dialog)
                then w\<lparr>trace := trace w @ [Emit Saved],
                       m_revealerDone_reveal_child := True, m_connectionSaved := True\<rparr>
                else w\<lparr>trace := trace w @ [ErrorDialog ''The current document could not be saved'']\<rparr>)
          else w)"
  using assms by (simp add: onSaveAction_def emit_def savedLambda_def errorDialog_def)

lemma queueCommand_eq:
  assumes "constructed w" and "commandQueuedSignal (m_commandSlot w) = [CommandQueuedLambda]"
  shows "queueCommand c w =
    Some (w\<lparr>trace := trace w @ [Emit CommandQueued],
            actions := (actions w)
                (''undo'' \<mapsto> \<lparr>activate = OnUndoAction, enabled = False\<rparr>,
                 ''redo'' \<mapsto> \<lparr>activate = OnRedoAction, enabled = False\<rparr>),
            window_cursor := Some ''progress'',
            m_commandSlot := (m_commandSlot w)\<lparr>pending := pending (m_commandSlot w) @ [c]\<rparr>\<rparr>)"
proof -
  have c': "constructed (w\<lparr>trace := trace w @ [Emit CommandQueued]\<rparr>)"
    using assms(1) by simp
  show ?thesis
    by (simp add: queueCommand_def emit_def assms(2) commandQueuedLambda_eq [OF c'])
qed

lemma commandExecuted_outcome [simp]: "commandExecuted (outcome fails c d) = commandExecuted d"
  by (cases "(fails, c, d)" rule: outcome.cases)
    (simp_all add: undoCommand_def redoCommand_def forwardCommand_def split: list.splits)

lemma backgroundRun_eq:
  assumes "constructed w" and "pending (m_commandSlot w) = c # cs"
    and "m_document w = Some d" and "commandExecuted d = [OnCommandExecuted]"
  shows "backgroundRun fails w =
    Some (w\<lparr>m_commandSlot := (m_commandSlot w)\<lparr>pending := cs\<rparr>,
            m_document := Some (outcome fails c d),
            trace := trace w @ [Emit CommandExecuted],
            actions := (actions w)
                (''undo'' \<mapsto> \<lparr>activate = OnUndoAction, enabled = canUndo (outcome fails c d)\<rparr>,
                 ''redo'' \<mapsto> \<lparr>activate = OnRedoAction, enabled = canRedo (outcome fails c d)\<rparr>),
            window_cursor := None\<rparr>)"
proof -
  let ?w = "w\<lparr>m_commandSlot := (m_commandSlot w)\<lparr>pending := cs\<rparr>,
            m_document := Some (outcome fails c d),
            trace := trace w @ [Emit CommandExecuted]\<rparr>"
  have c': "constructed ?w" and d': "m_document ?w = Some (outcome fails c d)"
    using assms(1) by (simp_all add: constructed_def)
  have w2: "(if fails then Some (w\<lparr>m_commandSlot := (m_commandSlot w)\<lparr>pending := cs\<rparr>\<rparr>)
             else call c (w\<lparr>m_commandSlot := (m_commandSlot w)\<lparr>pending := cs\<rparr>\<rparr>)) =
        Some (w\<lparr>m_commandSlot := (m_commandSlot w)\<lparr>pending := cs\<rparr>,
                m_document := Some (outcome fails c d)\<rparr>)"
  proof (cases fails)
    case True
    have "w\<lparr>m_document := Some d\<rparr> = w"
      using assms(3) by (cases w) simp
    then have "w\<lparr>m_commandSlot := (m_commandSlot w)\<lparr>pending := cs\<rparr>, m_document := Some d\<rparr> =
       w\<lparr>m_commandSlot := (m_commandSlot w)\<lparr>pending := cs\<rparr>\<rparr>"
      by (cases w) simp
    with True show ?thesis by simp
  next
    case False
    then show ?thesis
      using assms(3) by (cases c) simp_all
  qed
  show ?thesis
    unfolding backgroundRun_def
    by (simp add: assms(2) w2 assms(4) emit_def onCommandExecuted_eq [OF c' d'])
qed

lemma new_effects_simps [simp]:
  "new_effects w (w\<lparr>trace := trace w @ t\<rparr>) = t"
  by (simp add: new_effects_def)

lemma executed_notification:
  assumes "constructed w" and "m_document w = Some d"
  shows "\<exists>w2. emit CommandExecuted [OnCommandExecuted] w = Some w2 \<and>
            action_enabled w2 ''undo'' = Some (canUndo d) \<and>
            action_enabled w2 ''redo'' = Some (canRedo d) \<and>
            window_cursor w2 = None \<and> m_document w2 = Some d"
proof -
  let ?w = "w\<lparr>trace := trace w @ [Emit CommandExecuted]\<rparr>"
  have c': "constructed ?w" and d': "m_document ?w = Some d"
    using assms by (simp_all add: constructed_def)
  show ?thesis
    by (simp add: onCommandExecuted_eq [OF c' d'] emit_def action_enabled_def assms(2))
qed

subsection \<open>One step of the application\<close>

lemma consistent_initial: "consistent initial_window"
  by (simp add: consistent_def constructed_def connected_def initial_window_def
      action_enabled_def registered_def)

lemma consistentD:
  assumes "consistent w"
  shows "constructed w"
    and "commandQueuedSignal (m_commandSlot w) = [CommandQueuedLambda]"
    and "m_signalSaved w = [SavedLambda]"
    and "m_buttonCloseDone_clicked w = [CloseDoneLambda]"
    and "map_option activate (actions w n) = registered n"
  using assms by (simp_all add: consistent_def connected_def)

lemma step_cases [consumes 1, case_names Same OpenCancelled OpenFailed Opened Saved SaveFailed
    Queued Ran Closed TimedOut]:
  assumes "consistent w"
  obtains
    (Same) "step readable save_ok e w = Some w" and "\<not> opens_document readable e"
  | (OpenCancelled) "\<not> opens_document readable e" and "keeps_document readable e" and
      "step readable save_ok e w =
         Some (w\<lparr>actions := (actions w)
                (''undo'' \<mapsto> \<lparr>activate = OnUndoAction, enabled = False\<rparr>,
                 ''redo'' \<mapsto> \<lparr>activate = OnRedoAction, enabled = False\<rparr>)\<rparr>)"
  | (OpenFailed) "\<not> opens_document readable e" and "keeps_document readable e" and
      "step readable save_ok e w =
         Some (w\<lparr>trace := trace w @ [ErrorDialog ''The selected file could not be opened''],
            actions := (actions w)
                (''undo'' \<mapsto> \<lparr>activate = OnUndoAction, enabled = False\<rparr>,
                 ''redo'' \<mapsto> \<lparr>activate = OnRedoAction, enabled = False\<rparr>)\<rparr>)"
  | (Opened) dialog :: file_dialog where "opens_document readable e" and
      "step readable save_ok e w =
         Some (w\<lparr>m_editor_document := Some (get_path (get_file dialog)),
            m_document := Some \<lparr>path = get_path (get_file dialog), undoStack = [],
                                 redoStack = [], commandExecuted = [OnCommandExecuted]\<rparr>,
            m_overlay_child := Some Editor,
            m_headerBar_subtitle := get_basename (get_file dialog),
            actions := (actions w)
                (''save-document'' \<mapsto> \<lparr>activate = OnSaveAction, enabled = True\<rparr>,
                 ''undo'' \<mapsto> \<lparr>activate = OnUndoAction, enabled = False\<rparr>,
                 ''redo'' \<mapsto> \<lparr>activate = OnRedoAction, enabled = False\<rparr>)\<rparr>)"
  | (Saved) "\<not> opens_document readable e" and
      "step readable save_ok e w =
         Some (w\<lparr>trace := trace w @ [Emit Saved],
                 m_revealerDone_reveal_child := True, m_connectionSaved := True\<rparr>)"
  | (SaveFailed) "\<not> opens_document readable e" and
      "step readable save_ok e w =
         Some (w\<lparr>trace := trace w @ [ErrorDialog ''The current document could not be saved'']\<rparr>)"
  | (Queued) c d where "\<not> opens_document readable e" and "m_document w = Some d" and
      "step readable save_ok e w =
         Some (w\<lparr>trace := trace w @ [Emit CommandQueued],
            actions := (actions w)
                (''undo'' \<mapsto> \<lparr>activate = OnUndoAction, enabled = False\<rparr>,
                 ''redo'' \<mapsto> \<lparr>activate = OnRedoAction, enabled = False\<rparr>),
            window_cursor := Some ''progress'',
            m_commandSlot := (m_commandSlot w)\<lparr>pending := pending (m_commandSlot w) @ [c]\<rparr>\<rparr>)"
  | (Ran) fails c cs d where "\<not> opens_document readable e" and
      "pending (m_commandSlot w) = c # cs" and "m_document w = Some d" and
      "step readable save_ok e w =
         Some (w\<lparr>m_commandSlot := (m_commandSlot w)\<lparr>pending := cs\<rparr>,
            m_document := Some (outcome fails c d),
            trace := trace w @ [Emit CommandExecuted],
            actions := (actions w)
                (''undo'' \<mapsto> \<lparr>activate = OnUndoAction, enabled = canUndo (outcome fails c d)\<rparr>,
                 ''redo'' \<mapsto> \<lparr>activate = OnRedoAction, enabled = canRedo (outcome fails c d)\<rparr>),
            window_cursor := None\<rparr>)"
  | (Closed) "\<not> opens_document readable e" and
      "step readable save_ok e w = Some (w\<lparr>m_revealerDone_reveal_child := False\<rparr>)"
  | (TimedOut) "\<not> opens_document readable e" and
      "step readable save_ok e w =
         Some (w\<lparr>m_revealerDone_reveal_child := False, m_connectionSaved := False\<rparr>)"
proof (cases e)
  case (Activate n dialog)
  note c = consistentD [OF assms]
  show ?thesis
  proof (cases "actions w n")
    case None
    with c(5) [of n] have "n \<noteq> ''open-document''"
      by (auto simp: registered_def)
    with None Activate show ?thesis
      by (intro Same) (simp_all add: activate_action_def opens_document_def)
  next
    case (Some a)
    show ?thesis
    proof (cases "enabled a")
      case False
      with Some assms have "n \<noteq> ''open-document''"
        by (auto simp: consistent_def action_enabled_def)
      with False Some Activate show ?thesis
        by (intro Same) (simp_all add: activate_action_def opens_document_def)
    next
      case True
      from Some c(5) [of n] have r: "registered n = Some (activate a)"
        by simp
      then consider (op) "n = ''open-document''" "activate a = OnOpenAction"
        | (sv) "n = ''save-document''" "activate a = OnSaveAction"
        | (un) "n = ''undo''" "activate a = OnUndoAction"
        | (re) "n = ''redo''" "activate a = OnRedoAction"
        by (auto simp: registered_def split: if_splits)
      then show ?thesis
      proof cases
        case op
        have s: "step readable save_ok e w = onOpenAction readable dialog w"
          using Activate Some True op by (simp add: activate_action_def)
        have o: "opens_document readable e \<longleftrightarrow>
            run dialog = GTK_RESPONSE_ACCEPT \<and> readable (get_path (get_file dialog))"
          "keeps_document readable e \<longleftrightarrow>
            \<not> (run dialog = GTK_RESPONSE_ACCEPT \<and> readable (get_path (get_file dialog)))"
          using Activate op by (simp_all add: opens_document_def keeps_document_def)
        show ?thesis
        proof (cases "run dialog = GTK_RESPONSE_ACCEPT")
          case False
          show ?thesis
            by (rule OpenCancelled)
              (simp_all add: s onOpenAction_cancelled [OF c(1) False] o False)
        next
          case acc: True
          show ?thesis
          proof (cases "readable (get_path (get_file dialog))")
            case False
            show ?thesis
              by (rule OpenFailed)
                (simp_all add: s onOpenAction_failed [of w dialog readable, OF c(1) acc False]
                  o False)
          next
            case True
            show ?thesis
              by (rule Opened [of dialog])
                (simp_all add: s onOpenAction_opened [of w dialog readable, OF c(1) acc True]
                  o acc True)
          qed
        qed
      next
        case sv
        from assms Some True sv obtain d where d: "m_document w = Some d"
          by (cases "m_document w") (auto simp: consistent_def action_enabled_def)
        have s: "step readable save_ok e w = onSaveAction save_ok dialog w"
          using Activate Some True sv by (simp add: activate_action_def)
        have no: "\<not> opens_document readable e"
          using Activate sv by (simp add: opens_document_def)
        consider (ok) "run dialog = GTK_RESPONSE_ACCEPT" "save_ok d (get_file dialog)"
          | (bad) "run dialog = GTK_RESPONSE_ACCEPT" "\<not> save_ok d (get_file dialog)"
          | (cancel) "run dialog \<noteq> GTK_RESPONSE_ACCEPT"
          by blast
        then show ?thesis
        proof cases
          case ok
          show ?thesis
            by (rule Saved) (simp_all add: no s onSaveAction_eq [OF d c(3)] ok)
        next
          case bad
          show ?thesis
            by (rule SaveFailed) (simp_all add: no s onSaveAction_eq [OF d c(3)] bad)
        next
          case cancel
          show ?thesis
            by (rule Same) (simp_all add: no s onSaveAction_eq [OF d c(3)] cancel)
        qed
      next
        case un
        from assms Some True un obtain d where d: "m_document w = Some d"
          by (cases "m_document w") (auto simp: consistent_def action_enabled_def)
        have s: "step readable save_ok e w = queueCommand UndoClosure w"
          using Activate Some True un by (simp add: activate_action_def onUndoAction_def)
        have no: "\<not> opens_document readable e"
          using Activate un by (simp add: opens_document_def)
        show ?thesis
          by (rule Queued [of d UndoClosure])
            (simp_all add: no d s queueCommand_eq [OF c(1) c(2)])
      next
        case re
        from assms Some True re obtain d where d: "m_document w = Some d"
          by (cases "m_document w") (auto simp: consistent_def action_enabled_def)
        have s: "step readable save_ok e w = queueCommand RedoClosure w"
          using Activate Some True re by (simp add: activate_action_def onRedoAction_def)
        have no: "\<not> opens_document readable e"
          using Activate re by (simp add: opens_document_def)
        show ?thesis
          by (rule Queued [of d RedoClosure])
            (simp_all add: no d s queueCommand_eq [OF c(1) c(2)])
      qed
    qed
  qed
next
  case (EditorSubmit x)
  note c = consistentD [OF assms]
  have no: "\<not> opens_document readable e"
    using EditorSubmit by (simp add: opens_document_def)
  show ?thesis
  proof (cases "m_editor_document w")
    case None
    have "step readable save_ok e w = Some w"
      using EditorSubmit None by (simp add: editorSubmit_def)
    then show ?thesis
      using no by (rule Same)
  next
    case (Some p)
    with assms obtain d where d: "m_document w = Some d"
      by (cases "m_document w") (auto simp: consistent_def)
    have s: "step readable save_ok e w = queueCommand (EditorClosure x) w"
      using EditorSubmit Some by (simp add: editorSubmit_def)
    show ?thesis
      by (rule Queued [of d "EditorClosure x"])
        (simp_all add: no d s queueCommand_eq [OF c(1) c(2)])
  qed
next
  case (BackgroundRun fails)
  note c = consistentD [OF assms]
  have no: "\<not> opens_document readable e"
    using BackgroundRun by (simp add: opens_document_def)
  have s: "step readable save_ok e w = backgroundRun fails w"
    using BackgroundRun by simp
  show ?thesis
  proof (cases "pending (m_commandSlot w)")
    case Nil
    then have "step readable save_ok e w = Some w"
      by (simp add: s backgroundRun_def)
    then show ?thesis
      using no by (rule Same)
  next
    case (Cons x xs)
    with assms obtain d where d: "m_document w = Some d"
      and ce: "commandExecuted d = [OnCommandExecuted]"
      by (cases "m_document w") (auto simp: consistent_def)
    show ?thesis
      by (rule Ran [of x xs d fails])
        (simp_all add: no Cons d s backgroundRun_eq [OF c(1) Cons d ce])
  qed
next
  case CloseDoneClicked
  note c = consistentD [OF assms]
  have no: "\<not> opens_document readable e"
    using CloseDoneClicked by (simp add: opens_document_def)
  have "step readable save_ok e w = Some (w\<lparr>m_revealerDone_reveal_child := False\<rparr>)"
    using CloseDoneClicked by (simp add: c(4) closeDoneLambda_def)
  with no show ?thesis
    by (rule Closed)
next
  case SavedTimeout
  have no: "\<not> opens_document readable e"
    using SavedTimeout by (simp add: opens_document_def)
  show ?thesis
  proof (cases "m_connectionSaved w")
    case True
    with SavedTimeout
    have "step readable save_ok e w =
        Some (w\<lparr>m_revealerDone_reveal_child := False, m_connectionSaved := False\<rparr>)"
      by (simp add: savedTimeout_def)
    with no show ?thesis
      by (rule TimedOut)
  next
    case False
    with SavedTimeout have "step readable save_ok e w = Some w"
      by (simp add: savedTimeout_def)
    then show ?thesis
      using no by (rule Same)
  qed
qed

lemma consistent_upd:
  "consistent (w\<lparr>trace := t\<rparr>) = consistent w"
  "consistent (w\<lparr>m_revealerDone_reveal_child := b\<rparr>) = consistent w"
  "consistent (w\<lparr>m_connectionSaved := b\<rparr>) = consistent w"
  "consistent (w\<lparr>window_cursor := c\<rparr>) = consistent w"
  by (simp_all add: consistent_def constructed_def connected_def action_enabled_def)

lemma consistent_step:
  assumes "consistent w"
  shows "\<exists>w'. step readable save_ok e w = Some w' \<and> consistent w'"
  using assms
proof (cases rule: step_cases [where readable = readable and save_ok = save_ok and e = e])
  case (Ran fails c cs d)
  with assms show ?thesis
    by (simp add: consistent_def constructed_def connected_def action_enabled_def registered_def)
next
  case (Queued c d)
  with assms show ?thesis
    by (simp add: consistent_def constructed_def connected_def action_enabled_def registered_def)
next
  case (Opened dialog)
  with assms show ?thesis
    by (simp add: consistent_def constructed_def connected_def action_enabled_def registered_def)
next
  case OpenCancelled
  with assms show ?thesis
    by (simp add: consistent_def constructed_def connected_def action_enabled_def registered_def)
next
  case OpenFailed
  with assms show ?thesis
    by (simp add: consistent_def constructed_def connected_def action_enabled_def registered_def)
qed (use assms in \<open>simp_all add: consistent_upd\<close>)

lemma steps_consistent:
  assumes "consistent w"
  shows "\<exists>w'. steps readable save_ok es w = Some w' \<and> consistent w'"
  using assms
proof (induction es arbitrary: w)
  case Nil
  then show ?case by simp
next
  case (Cons e es)
  from consistent_step [OF Cons.prems]
  obtain w1 where "step readable save_ok e w = Some w1" and "consistent w1"
    by blast
  with Cons.IH [of w1] show ?case by simp
qed

lemma launch_consistent:
  "\<exists>w. launch readable save_ok es = Some w \<and> consistent w"
  using steps_consistent [OF consistent_initial] by (simp add: launch_def start_eq)

lemma step_document:
  assumes "consistent w" and "step readable save_ok e w = Some w'"
  shows "(m_document w' \<noteq> None) = (m_document w \<noteq> None \<or> opens_document readable e)"
  using assms(1)
  by (cases rule: step_cases [where readable = readable and save_ok = save_ok and e = e])
    (use assms(2) in auto)

lemma steps_document:
  assumes "consistent w" and "steps readable save_ok es w = Some w'"
  shows "(m_document w' \<noteq> None) =
    (m_document w \<noteq> None \<or> list_ex (opens_document readable) es)"
  using assms
proof (induction es arbitrary: w)
  case Nil
  then show ?case by simp
next
  case (Cons e es)
  from consistent_step [OF Cons.prems(1)]
  obtain w1 where s: "step readable save_ok e w = Some w1" and c: "consistent w1"
    by blast
  with Cons.prems(2) have "steps readable save_ok es w1 = Some w'"
    by simp
  from Cons.IH [OF c this] step_document [OF Cons.prems(1) s] show ?case
    by auto
qed











lemma step_balanced:
  assumes "consistent w" and "balanced w" and "step readable save_ok e w = Some w'"
  shows "balanced w'"
  using assms(1)
  by (cases rule: step_cases [where readable = readable and save_ok = save_ok and e = e])
    (use assms(2,3) in \<open>auto simp: balanced_def\<close>)

lemma steps_balanced:
  assumes "consistent w" and "balanced w" and "steps readable save_ok es w = Some w'"
  shows "balanced w'"
  using assms
proof (induction es arbitrary: w)
  case Nil
  then show ?case by simp
next
  case (Cons e es)
  from consistent_step [OF Cons.prems(1)]
  obtain w1 where s: "step readable save_ok e w = Some w1" and c: "consistent w1"
    by blast
  with Cons.prems(3) have ss: "steps readable save_ok es w1 = Some w'"
    by simp
  from Cons.IH [OF c step_balanced [OF Cons.prems(1,2) s] ss] show ?case .
qed

lemma balanced_initial: "balanced initial_window"
  by (simp add: balanced_def initial_window_def)

lemma drain:
  assumes "consistent w" and "length bs = length (pending (m_commandSlot w))"
  shows "\<exists>w'. steps readable save_ok (map BackgroundRun bs) w = Some w' \<and>
     pending (m_commandSlot w') = [] \<and>
     trace w' = trace w @ replicate (length bs) (Emit CommandExecuted)"
  using assms
proof (induction bs arbitrary: w)
  case Nil
  then show ?case by simp
next
  case (Cons b bs)
  from Cons.prems(2) obtain c cs where p: "pending (m_commandSlot w) = c # cs"
    by (cases "pending (m_commandSlot w)") auto
  with Cons.prems(1) obtain d where d: "m_document w = Some d"
    and ce: "commandExecuted d = [OnCommandExecuted]"
    by (cases "m_document w") (auto simp: consistent_def)
  note r = backgroundRun_eq [OF consistentD(1) [OF Cons.prems(1)] p d ce, of b]
  from consistent_step [OF Cons.prems(1), of readable save_ok "BackgroundRun b"] r
  obtain w1 where s: "backgroundRun b w = Some w1" and c1: "consistent w1"
    by auto
  from s r have p1: "pending (m_commandSlot w1) = cs"
    and t1: "trace w1 = trace w @ [Emit CommandExecuted]"
    by auto
  from Cons.prems(2) p p1 have "length bs = length (pending (m_commandSlot w1))"
    by simp
  from Cons.IH [OF c1 this] s t1 show ?case
    by (auto simp: replicate_append_same)
qed

lemma step_synced:
  assumes "consistent w" and "\<not> keeps_document readable e"
    and "synced w" and "step readable save_ok e w = Some w'"
  shows "synced w'"
  using assms(1)
  by (cases rule: step_cases [where readable = readable and save_ok = save_ok and e = e])
    (use assms(2,3,4) in \<open>auto simp: synced_def action_enabled_def canUndo_def canRedo_def\<close>)

lemma steps_synced:
  assumes "consistent w" and "\<not> list_ex (keeps_document readable) es"
    and "synced w" and "steps readable save_ok es w = Some w'"
  shows "synced w'"
  using assms
proof (induction es arbitrary: w)
  case Nil
  then show ?case by simp
next
  case (Cons e es)
  from consistent_step [OF Cons.prems(1)]
  obtain w1 where s: "step readable save_ok e w = Some w1" and c: "consistent w1"
    by blast
  with Cons.prems(4) have ss: "steps readable save_ok es w1 = Some w'"
    by simp
  from Cons.prems(2) have k: "\<not> keeps_document readable e"
    "\<not> list_ex (keeps_document readable) es"
    by simp_all
  from Cons.IH [OF c k(2) step_synced [OF Cons.prems(1) k(1) Cons.prems(3) s] ss]
  show ?case .
qed

text \<open>
  In a run without a cancelled or failed open, an idle window shows the document's
  undo and redo availability.
\<close>

lemma idle_window_reflects_document:
  assumes "launch readable save_ok es = Some w"
    and "\<not> list_ex (keeps_document readable) es"
    and "pending (m_commandSlot w) = []" and "m_document w = Some d"
  shows "action_enabled w ''undo'' = Some (canUndo d) \<and>
    action_enabled w ''redo'' = Some (canRedo d)"
proof -
  from assms(1) have "steps readable save_ok es initial_window = Some w"
    by (simp add: launch_def start_eq)
  moreover have "synced initial_window"
    by (simp add: synced_def initial_window_def)
  ultimately have "synced w"
    using steps_synced [OF consistent_initial assms(2)] by blast
  with assms(3,4) show ?thesis
    by (simp add: synced_def)
qed


subsection \<open>The two notification handlers\<close>

text \<open>
  C1. When the command slot's "command queued" notification fires, the window's handler
  disables the undo action and the redo action and sets the progress cursor, and it
  does so before the command runs: the handler leaves the document and the command
  slot as they are, and when \<open>queueCommand\<close> returns the window is busy while the
  command handed over is still pending, with no completion notified.
\<close>

theorem command_queued_disables_undo_redo:
  assumes "constructed w"
    and "commandQueuedSignal (m_commandSlot w) = [CommandQueuedLambda]"
  shows "(\<exists>w1. commandQueuedLambda w = Some w1 \<and>
            action_enabled w1 ''undo'' = Some False \<and>
            action_enabled w1 ''redo'' = Some False \<and>
            window_cursor w1 = Some ''progress'' \<and>
            m_document w1 = m_document w \<and> m_commandSlot w1 = m_commandSlot w) \<and>
         (\<exists>w2. queueCommand c w = Some w2 \<and>
            action_enabled w2 ''undo'' = Some False \<and>
            action_enabled w2 ''redo'' = Some False \<and>
            window_cursor w2 = Some ''progress'' \<and>
            m_document w2 = m_document w \<and>
            pending (m_commandSlot w2) = pending (m_commandSlot w) @ [c] \<and>
            new_effects w w2 = [Emit CommandQueued])"
proof -
  have c': "constructed (w\<lparr>trace := trace w @ [Emit CommandQueued]\<rparr>)"
    using assms(1) by (simp add: constructed_def)
  show ?thesis
    by (simp add: commandQueuedLambda_eq [OF assms(1)] commandQueuedLambda_eq [OF c']
        queueCommand_def emit_def assms(2) action_enabled_def new_effects_def)
qed

theorem command_queued_disables_undo_redo_witness:
  "constructed editing_window \<and>
   commandQueuedSignal (m_commandSlot editing_window) = [CommandQueuedLambda] \<and>
   action_enabled editing_window ''undo'' = Some True \<and>
   (\<exists>w2. queueCommand UndoClosure editing_window = Some w2 \<and>
      action_enabled w2 ''undo'' = Some False \<and>
      action_enabled w2 ''redo'' = Some False \<and>
      window_cursor w2 = Some ''progress'' \<and>
      m_document w2 = Some edited_document \<and>
      pending (m_commandSlot w2) = [UndoClosure])"
proof -
  have h1: "constructed editing_window"
    by (simp add: constructed_def editing_window_def)
  have h2: "commandQueuedSignal (m_commandSlot editing_window) = [CommandQueuedLambda]"
    by (simp add: editing_window_def)
  have h3: "action_enabled editing_window ''undo'' = Some True"
    "m_document editing_window = Some edited_document"
    "pending (m_commandSlot editing_window) = []"
    by (simp_all add: action_enabled_def editing_window_def)
  from command_queued_disables_undo_redo [OF h1 h2, of UndoClosure] h1 h2 h3
  show ?thesis by auto
qed

text \<open>
  C2. When the document's "command executed" notification fires, the window's handler
  enables the undo action exactly if \<open>canUndo\<close> holds of the document, the redo
  action exactly if \<open>canRedo\<close> holds, and unsets the cursor.
\<close>

theorem command_executed_rederives_availability:
  assumes "constructed w" and "m_document w = Some d"
  shows "(\<exists>w1. onCommandExecuted w = Some w1 \<and>
            action_enabled w1 ''undo'' = Some (canUndo d) \<and>
            action_enabled w1 ''redo'' = Some (canRedo d) \<and>
            window_cursor w1 = None \<and> m_document w1 = Some d) \<and>
         (\<exists>w2. emit CommandExecuted [OnCommandExecuted] w = Some w2 \<and>
            action_enabled w2 ''undo'' = Some (canUndo d) \<and>
            action_enabled w2 ''redo'' = Some (canRedo d) \<and>
            window_cursor w2 = None \<and> m_document w2 = Some d)"
proof -
  let ?w = "w\<lparr>trace := trace w @ [Emit CommandExecuted]\<rparr>"
  have c': "constructed ?w" and d': "m_document ?w = Some d"
    using assms by (simp_all add: constructed_def)
  show ?thesis
    by (simp add: onCommandExecuted_eq [OF assms] onCommandExecuted_eq [OF c' d']
        emit_def action_enabled_def assms(2))
qed

theorem command_executed_rederives_availability_witness:
  "constructed busy_window \<and>
   m_document busy_window = Some (undoCommand edited_document) \<and>
   action_enabled busy_window ''undo'' = Some False \<and>
   action_enabled busy_window ''redo'' = Some False \<and>
   window_cursor busy_window = Some ''progress'' \<and>
   (\<exists>w1. onCommandExecuted busy_window = Some w1 \<and>
      action_enabled w1 ''undo'' = Some True \<and>
      action_enabled w1 ''redo'' = Some True \<and>
      window_cursor w1 = None)"
proof -
  have h1: "constructed busy_window"
    by (simp add: constructed_def busy_window_def editing_window_def)
  have h2: "m_document busy_window = Some (undoCommand edited_document)"
    by (simp add: busy_window_def)
  have h3: "action_enabled busy_window ''undo'' = Some False"
    "action_enabled busy_window ''redo'' = Some False"
    "window_cursor busy_window = Some ''progress''"
    by (simp_all add: action_enabled_def busy_window_def editing_window_def)
  have h4: "canUndo (undoCommand edited_document)" "canRedo (undoCommand edited_document)"
    by (simp_all add: canUndo_def canRedo_def undoCommand_def edited_document_def)
  from command_executed_rederives_availability [OF h1 h2] h1 h2 h3 h4
  show ?thesis by auto
qed

subsection \<open>The action handlers\<close>

text \<open>
  C5. Triggering the undo action hands the command slot a closure that calls
  \<open>undoCommand\<close> on the document, triggering the redo action one that calls
  \<open>redoCommand\<close>; the handler itself leaves the document as it is.
\<close>

theorem undo_redo_actions_enqueue_closures:
  assumes "constructed w"
    and "commandQueuedSignal (m_commandSlot w) = [CommandQueuedLambda]"
  shows "(\<exists>w'. onUndoAction w = Some w' \<and>
            pending (m_commandSlot w') = pending (m_commandSlot w) @ [UndoClosure] \<and>
            m_document w' = m_document w) \<and>
         (\<exists>w'. onRedoAction w = Some w' \<and>
            pending (m_commandSlot w') = pending (m_commandSlot w) @ [RedoClosure] \<and>
            m_document w' = m_document w) \<and>
         map_option m_document (call UndoClosure (w\<lparr>m_document := Some d\<rparr>)) =
           Some (Some (undoCommand d)) \<and>
         map_option m_document (call RedoClosure (w\<lparr>m_document := Some d\<rparr>)) =
           Some (Some (redoCommand d))"
  by (simp add: onUndoAction_def onRedoAction_def queueCommand_eq [OF assms])

theorem undo_redo_actions_enqueue_closures_witness:
  "constructed editing_window \<and>
   commandQueuedSignal (m_commandSlot editing_window) = [CommandQueuedLambda] \<and>
   (\<exists>w'. onUndoAction editing_window = Some w' \<and>
      pending (m_commandSlot w') = [UndoClosure] \<and>
      m_document w' = Some edited_document) \<and>
   (\<exists>w'. onRedoAction editing_window = Some w' \<and>
      pending (m_commandSlot w') = [RedoClosure] \<and>
      m_document w' = Some edited_document) \<and>
   map_option m_document (call UndoClosure editing_window) =
     Some (Some \<lparr>path = ''a.pdf'', undoStack = [1], redoStack = [2],
                  commandExecuted = [OnCommandExecuted]\<rparr>)"
proof -
  have h: "constructed editing_window"
    "commandQueuedSignal (m_commandSlot editing_window) = [CommandQueuedLambda]"
    by (simp_all add: constructed_def editing_window_def)
  have e: "m_document editing_window = Some edited_document"
    "pending (m_commandSlot editing_window) = []"
    "editing_window\<lparr>m_document := Some edited_document\<rparr> = editing_window"
    "undoCommand edited_document = \<lparr>path = ''a.pdf'', undoStack = [1], redoStack = [2],
                  commandExecuted = [OnCommandExecuted]\<rparr>"
    by (simp_all add: editing_window_def edited_document_def undoCommand_def)
  from undo_redo_actions_enqueue_closures [OF h, of edited_document] h e
  show ?thesis by auto
qed

text \<open>
  C6. Opening a file makes a new document from the file's path, which takes the place of
  the previous document whatever its history was, and subscribes \<open>onCommandExecuted\<close>
  to the new document's "command executed" signal: when that signal fires later,
  whatever the new document's stacks \<open>us\<close> and \<open>rs\<close> are by then, undo and redo
  are enabled according to them.
\<close>

theorem open_document_replaces_and_subscribes:
  assumes "constructed w" and "readable (get_path file)"
  shows "\<exists>w'. openDocument readable file w = Some (Inr w') \<and>
     m_document w' = Some \<lparr>path = get_path file, undoStack = [], redoStack = [],
                            commandExecuted = [OnCommandExecuted]\<rparr> \<and>
     (\<exists>w''. emit CommandExecuted [OnCommandExecuted]
               (w'\<lparr>m_document := Some \<lparr>path = get_path file, undoStack = us, redoStack = rs,
                                        commandExecuted = [OnCommandExecuted]\<rparr>\<rparr>) = Some w'' \<and>
        action_enabled w'' ''undo'' = Some (us \<noteq> []) \<and>
        action_enabled w'' ''redo'' = Some (rs \<noteq> []) \<and>
        window_cursor w'' = None)"
proof -
  let ?d = "\<lparr>path = get_path file, undoStack = us, redoStack = rs,
             commandExecuted = [OnCommandExecuted]\<rparr>"
  from openDocument_eq [of w readable "file", OF assms]
  obtain w' where o: "openDocument readable file w = Some (Inr w')"
    and d: "m_document w' = Some \<lparr>path = get_path file, undoStack = [], redoStack = [],
                            commandExecuted = [OnCommandExecuted]\<rparr>"
    and c: "constructed w'"
    using assms(1) by (simp add: constructed_def)
  have c': "constructed (w'\<lparr>m_document := Some ?d\<rparr>)"
    using c by (simp add: constructed_def)
  have d': "m_document (w'\<lparr>m_document := Some ?d\<rparr>) = Some ?d"
    by simp
  from executed_notification [OF c' d'] o d show ?thesis
    by (auto simp add: canUndo_def canRedo_def)
qed

theorem open_document_replaces_and_subscribes_witness:
  "constructed editing_window \<and>
   m_document editing_window = Some edited_document \<and> undoStack edited_document = [2, 1] \<and>
   (\<exists>w'. openDocument (\<lambda>p. True) \<lparr>get_path = ''dir/b.pdf'', get_basename = ''b.pdf''\<rparr>
            editing_window = Some (Inr w') \<and>
      m_document w' = Some \<lparr>path = ''dir/b.pdf'', undoStack = [], redoStack = [],
                             commandExecuted = [OnCommandExecuted]\<rparr> \<and>
      (\<exists>w''. emit CommandExecuted [OnCommandExecuted]
               (w'\<lparr>m_document := Some \<lparr>path = ''dir/b.pdf'', undoStack = [], redoStack = [7],
                                        commandExecuted = [OnCommandExecuted]\<rparr>\<rparr>) = Some w'' \<and>
        action_enabled w'' ''undo'' = Some False \<and>
        action_enabled w'' ''redo'' = Some True))"
proof -
  have h: "constructed editing_window"
    by (simp add: constructed_def editing_window_def)
  have e: "m_document editing_window = Some edited_document" "undoStack edited_document = [2, 1]"
    by (simp_all add: editing_window_def edited_document_def)
  have r: "(\<lambda>p::string. True) (get_path \<lparr>get_path = ''dir/b.pdf'', get_basename = ''b.pdf''\<rparr>)"
    by simp
  from open_document_replaces_and_subscribes
    [of editing_window "\<lambda>p. True" "\<lparr>get_path = ''dir/b.pdf'', get_basename = ''b.pdf''\<rparr>" "[]" "[7]",
      OF h r] h e
  show ?thesis by auto
qed

text \<open>
  C8. After \<open>onOpenAction\<close> the undo and the redo action are disabled on every path:
  when the dialog is not accepted and when opening the file throws (then the document
  stays and, in the second case, an error dialog is run) as well as when the file is
  opened, whatever the history of the current document.
\<close>

theorem open_action_always_disables_undo_redo:
  assumes "constructed w"
  shows "\<exists>w'. onOpenAction readable dialog w = Some w' \<and>
     action_enabled w' ''undo'' = Some False \<and>
     action_enabled w' ''redo'' = Some False \<and>
     (if run dialog = GTK_RESPONSE_ACCEPT
      then (if readable (get_path (get_file dialog))
            then map_option path (m_document w') = Some (get_path (get_file dialog)) \<and>
                 new_effects w w' = []
            else m_document w' = m_document w \<and>
                 new_effects w w' = [ErrorDialog ''The selected file could not be opened''])
      else m_document w' = m_document w \<and> new_effects w w' = [])"
proof (cases "run dialog = GTK_RESPONSE_ACCEPT")
  case False
  then show ?thesis
    by (simp add: onOpenAction_cancelled [OF assms] action_enabled_def new_effects_def)
next
  case True
  show ?thesis
  proof (cases "readable (get_path (get_file dialog))")
    case r: True
    show ?thesis
      by (simp add: onOpenAction_opened [of w dialog readable, OF assms True r] True r
          action_enabled_def new_effects_def)
  next
    case r: False
    show ?thesis
      by (simp add: onOpenAction_failed [of w dialog readable, OF assms True r] True r
          action_enabled_def new_effects_def)
  qed
qed

theorem open_action_always_disables_undo_redo_witness:
  "constructed editing_window \<and>
   action_enabled editing_window ''undo'' = Some True \<and>
   map_option canUndo (m_document editing_window) = Some True \<and>
   (\<exists>w'. onOpenAction (\<lambda>p. False) cancelled editing_window = Some w' \<and>
      action_enabled w' ''undo'' = Some False \<and>
      action_enabled w' ''redo'' = Some False \<and>
      map_option canUndo (m_document w') = Some True \<and> new_effects editing_window w' = []) \<and>
   (\<exists>w'. onOpenAction (\<lambda>p. False) (accepted ''b.pdf'') editing_window = Some w' \<and>
      action_enabled w' ''undo'' = Some False \<and>
      action_enabled w' ''redo'' = Some False \<and>
      map_option canUndo (m_document w') = Some True \<and>
      new_effects editing_window w' = [ErrorDialog ''The selected file could not be opened'']) \<and>
   (\<exists>w'. onOpenAction (\<lambda>p. True) (accepted ''b.pdf'') editing_window = Some w' \<and>
      action_enabled w' ''undo'' = Some False \<and>
      action_enabled w' ''redo'' = Some False \<and>
      map_option path (m_document w') = Some ''b.pdf'')"
proof -
  have h: "constructed editing_window"
    by (simp add: constructed_def editing_window_def)
  have e: "action_enabled editing_window ''undo'' = Some True"
    "m_document editing_window = Some edited_document" "canUndo edited_document"
    by (simp_all add: action_enabled_def editing_window_def edited_document_def canUndo_def)
  have r: "run cancelled \<noteq> GTK_RESPONSE_ACCEPT" "run (accepted ''b.pdf'') = GTK_RESPONSE_ACCEPT"
    "get_path (get_file (accepted ''b.pdf'')) = ''b.pdf''"
    by (simp_all add: cancelled_def accepted_def GTK_RESPONSE_ACCEPT_def GTK_RESPONSE_CANCEL_def)
  from open_action_always_disables_undo_redo [OF h, of "\<lambda>p. False" cancelled]
    open_action_always_disables_undo_redo [OF h, of "\<lambda>p. False" "accepted ''b.pdf''"]
    open_action_always_disables_undo_redo [OF h, of "\<lambda>p. True" "accepted ''b.pdf''"]
    h e r
  show ?thesis by auto
qed

text \<open>
  C9. \<open>onSaveAction\<close> emits the "saved" signal exactly when the dialog was accepted
  and saving did not throw; when saving throws it runs an error dialog instead and
  returns normally.
\<close>

theorem save_action_emits_saved_iff_saved:
  assumes "m_document w = Some d" and "m_signalSaved w = [SavedLambda]"
  shows "\<exists>w'. onSaveAction save_ok dialog w = Some w' \<and>
     new_effects w w' =
       (if run dialog = GTK_RESPONSE_ACCEPT
        then (if save_ok d (get_file dialog) then [Emit Saved]
              else [ErrorDialog ''The current document could not be saved''])
        else []) \<and>
     (Emit Saved \<in> set (new_effects w w')) =
       (run dialog = GTK_RESPONSE_ACCEPT \<and> save_ok d (get_file dialog)) \<and>
     m_document w' = Some d"
  by (simp add: onSaveAction_eq [OF assms] new_effects_def assms(1))

theorem save_action_emits_saved_iff_saved_witness:
  "m_document editing_window = Some edited_document \<and>
   m_signalSaved editing_window = [SavedLambda] \<and>
   (\<exists>w'. onSaveAction (\<lambda>d f. True) (accepted ''out.pdf'') editing_window = Some w' \<and>
      new_effects editing_window w' = [Emit Saved]) \<and>
   (\<exists>w'. onSaveAction (\<lambda>d f. False) (accepted ''out.pdf'') editing_window = Some w' \<and>
      new_effects editing_window w' = [ErrorDialog ''The current document could not be saved'']) \<and>
   (\<exists>w'. onSaveAction (\<lambda>d f. True) cancelled editing_window = Some w' \<and>
      new_effects editing_window w' = [])"
proof -
  have h: "m_document editing_window = Some edited_document"
    "m_signalSaved editing_window = [SavedLambda]"
    by (simp_all add: editing_window_def)
  have r: "run cancelled \<noteq> GTK_RESPONSE_ACCEPT" "run (accepted ''out.pdf'') = GTK_RESPONSE_ACCEPT"
    by (simp_all add: cancelled_def accepted_def GTK_RESPONSE_ACCEPT_def GTK_RESPONSE_CANCEL_def)
  from save_action_emits_saved_iff_saved [OF h, of "\<lambda>d f. True" "accepted ''out.pdf''"]
    save_action_emits_saved_iff_saved [OF h, of "\<lambda>d f. False" "accepted ''out.pdf''"]
    save_action_emits_saved_iff_saved [OF h, of "\<lambda>d f. True" cancelled]
    h r
  show ?thesis by auto
qed

subsection \<open>Runs of the application\<close>

text \<open>
  C10. The constructor registers the save, the undo and the redo action and leaves all
  three disabled, with no document; and after any run of the application the save
  action is enabled exactly if some event of the run opened a document, so it is
  enabled only after a document has been opened successfully.
\<close>

theorem save_enabled_only_after_open:
  "(\<exists>w. start = Some w \<and> m_document w = None \<and>
       actions w ''save-document'' = Some \<lparr>activate = OnSaveAction, enabled = False\<rparr> \<and>
       actions w ''undo'' = Some \<lparr>activate = OnUndoAction, enabled = False\<rparr> \<and>
       actions w ''redo'' = Some \<lparr>activate = OnRedoAction, enabled = False\<rparr>) \<and>
   (\<forall>w. launch readable save_ok es = Some w \<longrightarrow>
       action_enabled w ''save-document'' = Some (list_ex (opens_document readable) es))"
proof -
  have "action_enabled w ''save-document'' = Some (list_ex (opens_document readable) es)"
    if l: "launch readable save_ok es = Some w" for w
  proof -
    from l have s: "steps readable save_ok es initial_window = Some w"
      by (simp add: launch_def start_eq)
    from launch_consistent [of readable save_ok es] l have "consistent w"
      by simp
    then have "action_enabled w ''save-document'' = Some (m_document w \<noteq> None)"
      by (simp add: consistent_def)
    with steps_document [OF consistent_initial s] show ?thesis
      by (simp add: initial_window_def)
  qed
  then show ?thesis
    by (simp add: start_eq initial_window_def)
qed

theorem save_enabled_only_after_open_witness:
  "(\<exists>w. launch (\<lambda>p. p = ''a.pdf'') (\<lambda>d f. True)
          [Activate ''open-document'' (accepted ''a.pdf'')] = Some w \<and>
      action_enabled w ''save-document'' = Some True) \<and>
   (\<exists>w. launch (\<lambda>p. p = ''a.pdf'') (\<lambda>d f. True)
          [Activate ''save-document'' (accepted ''a.pdf''), Activate ''open-document'' cancelled,
           Activate ''open-document'' (accepted ''b.pdf'')] = Some w \<and>
      action_enabled w ''save-document'' = Some False)"
proof -
  have "\<not> Option.is_none (launch (\<lambda>p. p = ''a.pdf'') (\<lambda>d f. True)
          [Activate ''open-document'' (accepted ''a.pdf'')])"
    by code_simp
  then obtain w1 where w1: "launch (\<lambda>p. p = ''a.pdf'') (\<lambda>d f. True)
          [Activate ''open-document'' (accepted ''a.pdf'')] = Some w1"
    by (auto simp: Option.is_none_def)
  have "\<not> Option.is_none (launch (\<lambda>p. p = ''a.pdf'') (\<lambda>d f. True)
          [Activate ''save-document'' (accepted ''a.pdf''), Activate ''open-document'' cancelled,
           Activate ''open-document'' (accepted ''b.pdf'')])"
    by code_simp
  then obtain w2 where w2: "launch (\<lambda>p. p = ''a.pdf'') (\<lambda>d f. True)
          [Activate ''save-document'' (accepted ''a.pdf''), Activate ''open-document'' cancelled,
           Activate ''open-document'' (accepted ''b.pdf'')] = Some w2"
    by (auto simp: Option.is_none_def)
  have o: "list_ex (opens_document (\<lambda>p. p = ''a.pdf''))
          [Activate ''open-document'' (accepted ''a.pdf'')]"
    "\<not> list_ex (opens_document (\<lambda>p. p = ''a.pdf''))
          [Activate ''save-document'' (accepted ''a.pdf''), Activate ''open-document'' cancelled,
           Activate ''open-document'' (accepted ''b.pdf'')]"
    by (simp_all add: opens_document_def accepted_def cancelled_def GTK_RESPONSE_ACCEPT_def
        GTK_RESPONSE_CANCEL_def)
  from save_enabled_only_after_open [of "\<lambda>p. p = ''a.pdf''" "\<lambda>d f. True"
      "[Activate ''open-document'' (accepted ''a.pdf'')]"] w1 o(1)
  have "action_enabled w1 ''save-document'' = Some True"
    by simp
  moreover
  from save_enabled_only_after_open [of "\<lambda>p. p = ''a.pdf''" "\<lambda>d f. True"
      "[Activate ''save-document'' (accepted ''a.pdf''), Activate ''open-document'' cancelled,
           Activate ''open-document'' (accepted ''b.pdf'')]"] w2 o(2)
  have "action_enabled w2 ''save-document'' = Some False"
    by simp
  ultimately show ?thesis
    using w1 w2 by simp
qed




text \<open>
  C7. At any point of a run every "command queued" notification is matched by one
  completion notification or by one command still pending; and when the background
  thread then runs the pending commands, each of them succeeding or throwing as \<open>bs\<close>
  says, it adds exactly one completion notification per command, after which nothing
  is pending, completions and queueings are equal in number and the cursor is unset.
\<close>

theorem every_queued_command_completes_once:
  assumes "launch readable save_ok es = Some w"
    and "length bs = length (pending (m_commandSlot w))"
  shows "count_list (trace w) (Emit CommandQueued) =
           count_list (trace w) (Emit CommandExecuted) + length (pending (m_commandSlot w)) \<and>
         (\<exists>w'. steps readable save_ok (map BackgroundRun bs) w = Some w' \<and>
            pending (m_commandSlot w') = [] \<and>
            trace w' = trace w @
              replicate (length (pending (m_commandSlot w))) (Emit CommandExecuted) \<and>
            count_list (trace w') (Emit CommandExecuted) = count_list (trace w') (Emit CommandQueued) \<and>
            window_cursor w' = None)"
proof -
  from launch_consistent [of readable save_ok es] assms(1) have c: "consistent w"
    by simp
  from assms(1) have "steps readable save_ok es initial_window = Some w"
    by (simp add: launch_def start_eq)
  from steps_balanced [OF consistent_initial balanced_initial this] have b: "balanced w" .
  from drain [OF c assms(2), of readable save_ok]
  obtain w' where s: "steps readable save_ok (map BackgroundRun bs) w = Some w'"
    and p: "pending (m_commandSlot w') = []"
    and t: "trace w' = trace w @ replicate (length bs) (Emit CommandExecuted)"
    by blast
  from steps_balanced [OF c b s] have b': "balanced w'" .
  from b have 1: "count_list (trace w) (Emit CommandQueued) =
      count_list (trace w) (Emit CommandExecuted) + length (pending (m_commandSlot w))"
    by (simp add: balanced_def)
  from b' p have 2: "count_list (trace w') (Emit CommandExecuted) =
      count_list (trace w') (Emit CommandQueued)" and 3: "window_cursor w' = None"
    by (simp_all add: balanced_def)
  from t assms(2) have 4: "trace w' = trace w @
      replicate (length (pending (m_commandSlot w))) (Emit CommandExecuted)"
    by simp
  from 1 2 3 4 s p show ?thesis
    by blast
qed

theorem every_queued_command_completes_once_witness:
  "\<exists>w. launch (\<lambda>p. True) (\<lambda>d f. True)
       [Activate ''open-document'' (accepted ''a.pdf''), EditorSubmit 1, EditorSubmit 2,
        BackgroundRun False, Activate ''undo'' cancelled] = Some w \<and>
     pending (m_commandSlot w) = [EditorClosure 2, UndoClosure] \<and>
     count_list (trace w) (Emit CommandQueued) = 3 \<and>
     count_list (trace w) (Emit CommandExecuted) = 1 \<and>
     window_cursor w = Some ''progress'' \<and>
     (\<exists>w'. steps (\<lambda>p. True) (\<lambda>d f. True) (map BackgroundRun [True, False]) w = Some w' \<and>
        pending (m_commandSlot w') = [] \<and>
        trace w' = trace w @ [Emit CommandExecuted, Emit CommandExecuted] \<and>
        count_list (trace w') (Emit CommandExecuted) = 3 \<and>
        window_cursor w' = None)"
proof -
  have "case launch (\<lambda>p. True) (\<lambda>d f. True)
       [Activate ''open-document'' (accepted ''a.pdf''), EditorSubmit 1, EditorSubmit 2,
        BackgroundRun False, Activate ''undo'' cancelled] of
      None \<Rightarrow> False
    | Some w \<Rightarrow>
        pending (m_commandSlot w) = [EditorClosure 2, UndoClosure] \<and>
        count_list (trace w) (Emit CommandQueued) = 3 \<and>
        count_list (trace w) (Emit CommandExecuted) = 1 \<and>
        window_cursor w = Some ''progress''"
    by code_simp
  then obtain w where l: "launch (\<lambda>p. True) (\<lambda>d f. True)
       [Activate ''open-document'' (accepted ''a.pdf''), EditorSubmit 1, EditorSubmit 2,
        BackgroundRun False, Activate ''undo'' cancelled] = Some w"
    and p: "pending (m_commandSlot w) = [EditorClosure 2, UndoClosure]"
    and q: "count_list (trace w) (Emit CommandQueued) = 3"
    and x: "count_list (trace w) (Emit CommandExecuted) = 1"
    and k: "window_cursor w = Some ''progress''"
    by (auto split: option.splits)
  have n: "length [True, False] = length (pending (m_commandSlot w))"
    by (simp add: p)
  from every_queued_command_completes_once [OF l n] p q x k l show ?thesis
    by (auto simp: numeral_2_eq_2)
qed

text \<open>
  C4. With no command in flight, undo and redo availability should be the document's.
  The run below ends with nothing pending and a document that can undo, yet with the
  undo action disabled: the open dialog was cancelled, and \<open>onOpenAction\<close> disables
  undo and redo although the document is still the edited one. Runs without a
  cancelled or failed open do keep the two in step (\<open>idle_window_reflects_document\<close>).
\<close>

theorem cancelled_open_leaves_undo_disabled:
  "\<exists>w d. launch (\<lambda>p. True) (\<lambda>d f. True)
       [Activate ''open-document'' (accepted ''a.pdf''), EditorSubmit 1, BackgroundRun False,
        Activate ''open-document'' cancelled] = Some w \<and>
     pending (m_commandSlot w) = [] \<and> window_cursor w = None \<and>
     m_document w = Some d \<and> canUndo d \<and>
     action_enabled w ''undo'' = Some False"
proof -
  have "case launch (\<lambda>p. True) (\<lambda>d f. True)
       [Activate ''open-document'' (accepted ''a.pdf''), EditorSubmit 1, BackgroundRun False,
        Activate ''open-document'' cancelled] of
      None \<Rightarrow> False
    | Some w \<Rightarrow>
        pending (m_commandSlot w) = [] \<and> window_cursor w = None \<and>
        (case m_document w of None \<Rightarrow> False | Some d \<Rightarrow> canUndo d) \<and>
        action_enabled w ''undo'' = Some False"
    by code_simp
  then show ?thesis
    by (auto split: option.splits)
qed

end
